theory Spec2Isabelle
  imports Main "HOL-Library.Sublist"
begin

section \<open>JavaScript string operations used by the source\<close>

text \<open>
  Addresses, call data and the environment variables are hexadecimal or decimal text.
  A JavaScript string is modelled as a \<^typ>\<open>string\<close> of ASCII characters; a character
  outside ASCII is neither a letter nor white space in this model.
\<close>

definition toLowerCase_char :: "char \<Rightarrow> char" where
  "toLowerCase_char c =
     (let n = (of_char c :: nat) in if 65 \<le> n \<and> n \<le> 90 then char_of (n + 32) else c)"

definition toLowerCase :: "string \<Rightarrow> string" where
  "toLowerCase s = map toLowerCase_char s"

definition startsWith :: "string \<Rightarrow> string \<Rightarrow> bool" where
  "startsWith s p = (take (length p) s = p)"

definition isWhiteSpace :: "char \<Rightarrow> bool" where
  "isWhiteSpace c = (let n = (of_char c :: nat) in (9 \<le> n \<and> n \<le> 13) \<or> n = 32)"

definition trim :: "string \<Rightarrow> string" where
  "trim s = rev (dropWhile isWhiteSpace (rev (dropWhile isWhiteSpace s)))"

text \<open>\<open>s.split(",")\<close>: every comma separates, empty pieces are kept, and the empty
  string gives one empty piece.\<close>

fun split_comma :: "string \<Rightarrow> string list" where
  "split_comma [] = [[]]"
| "split_comma (c # cs) =
     (if c = CHR '','' then [] # split_comma cs
      else (case split_comma cs of
              [] \<Rightarrow> [[c]]
            | p # ps \<Rightarrow> (c # p) # ps))"

section \<open>security/denyList.ts\<close>

datatype OperationType = Call | DelegateCall

text \<open>\<open>MetaTransactionData\<close>. The rules guard \<open>data\<close> with \<open>?.\<close> and \<open>to\<close> with
  \<open>&&\<close>, and \<open>operation\<close> is an optional field, so each of them may be undefined.\<close>

record MetaTransactionData =
  to :: "string option"
  value_wei :: string
  data :: "string option"
  operation :: "OperationType option"

text \<open>\<open>process.env\<close>.\<close>

type_synonym env = "string \<Rightarrow> string option"

record DenyListRule =
  id_rule :: string
  description :: string
  check :: "env \<Rightarrow> MetaTransactionData \<Rightarrow> bool"

text \<open>\<open>selectors.some((selector) => tx.data?.toLowerCase().startsWith(selector.toLowerCase()))\<close>:
  an undefined \<open>data\<close> makes every test undefined, which \<open>some\<close> reads as false.\<close>

definition someSelector :: "string list \<Rightarrow> MetaTransactionData \<Rightarrow> bool" where
  "someSelector dangerousFunctionSelectors tx =
     list_ex (\<lambda>selector.
        (case data tx of
           None \<Rightarrow> False
         | Some d \<Rightarrow> startsWith (toLowerCase d) (toLowerCase selector)))
       dangerousFunctionSelectors"

definition addOwnerWithThreshold_sel :: string where
  "addOwnerWithThreshold_sel = ''0x0d582f13''"

definition removeOwner_sel :: string where
  "removeOwner_sel = ''0xf8dc5dd9''"

definition swapOwner_sel :: string where
  "swapOwner_sel = ''0xe318b52b''"

definition changeThreshold_sel :: string where
  "changeThreshold_sel = ''0x694e80c3''"

definition enableModule_sel :: string where
  "enableModule_sel = ''0x610b5925''"

definition disableModule_sel :: string where
  "disableModule_sel = ''0xe009cfde''"

definition SAFE_OWNERSHIP_TRANSFER :: DenyListRule where
  "SAFE_OWNERSHIP_TRANSFER =
     \<lparr> id_rule = ''SAFE_OWNERSHIP_TRANSFER'',
       description = ''Prevent Safe ownership transfer operations'',
       check = (\<lambda>e tx. someSelector
         [addOwnerWithThreshold_sel, removeOwner_sel, swapOwner_sel, changeThreshold_sel] tx) \<rparr>"

definition SAFE_THRESHOLD_CHANGE :: DenyListRule where
  "SAFE_THRESHOLD_CHANGE =
     \<lparr> id_rule = ''SAFE_THRESHOLD_CHANGE'',
       description = ''Prevent Safe threshold change operations'',
       check = (\<lambda>e tx. someSelector [changeThreshold_sel] tx) \<rparr>"

definition SAFE_MODULE_MANAGEMENT :: DenyListRule where
  "SAFE_MODULE_MANAGEMENT =
     \<lparr> id_rule = ''SAFE_MODULE_MANAGEMENT'',
       description = ''Prevent Safe module management operations'',
       check = (\<lambda>e tx. someSelector [enableModule_sel, disableModule_sel] tx) \<rparr>"

text \<open>The allowlist read from \<open>TRUSTED_DELEGATE_CONTRACTS\<close>: an unset or empty variable is
  falsy and gives the empty list.\<close>

definition trustedDelegateContracts :: "env \<Rightarrow> string list" where
  "trustedDelegateContracts e =
     (case e ''TRUSTED_DELEGATE_CONTRACTS'' of
        None \<Rightarrow> []
      | Some s \<Rightarrow> if s = [] then [] else map (\<lambda>addr. toLowerCase (trim addr)) (split_comma s))"

definition delegateCallCheck :: "env \<Rightarrow> MetaTransactionData \<Rightarrow> bool" where
  "delegateCallCheck e tx =
     (if operation tx \<noteq> Some DelegateCall then False
      else if length (trustedDelegateContracts e) = 0 then True
      else (case to tx of
              None \<Rightarrow> False
            | Some t \<Rightarrow>
                if t \<noteq> [] \<and> \<not> List.member (trustedDelegateContracts e) (toLowerCase t)
                then True else False))"

definition DELEGATE_CALL_RESTRICTION :: DenyListRule where
  "DELEGATE_CALL_RESTRICTION =
     \<lparr> id_rule = ''DELEGATE_CALL_RESTRICTION'',
       description = ''Prevent delegate calls to untrusted contracts'',
       check = delegateCallCheck \<rparr>"

definition DENY_LIST_RULES :: "DenyListRule list" where
  "DENY_LIST_RULES =
     [SAFE_OWNERSHIP_TRANSFER, SAFE_THRESHOLD_CHANGE, SAFE_MODULE_MANAGEMENT,
      DELEGATE_CALL_RESTRICTION]"

text \<open>\<open>DenyListChecker\<close>: the object is its rule list.\<close>

record DenyListChecker =
  rules :: "DenyListRule list"

definition newDenyListChecker :: "DenyListRule list \<Rightarrow> DenyListChecker" where
  "newDenyListChecker customRules = \<lparr> rules = DENY_LIST_RULES @ customRules \<rparr>"

record PolicyDecision =
  denied :: bool
  reasons :: "string list"

definition reasonOf :: "DenyListRule \<Rightarrow> string" where
  "reasonOf rule = id_rule rule @ '': '' @ description rule"

definition isDenied :: "DenyListChecker \<Rightarrow> env \<Rightarrow> MetaTransactionData \<Rightarrow> PolicyDecision" where
  "isDenied this e transaction =
     (let deniedRules = filter (\<lambda>rule. check rule e transaction) (rules this)
      in \<lparr> denied = length deniedRules > 0, reasons = map reasonOf deniedRules \<rparr>)"

definition addRule :: "DenyListChecker \<Rightarrow> DenyListRule \<Rightarrow> DenyListChecker" where
  "addRule this rule = this\<lparr> rules := rules this @ [rule] \<rparr>"

definition removeRule :: "DenyListChecker \<Rightarrow> string \<Rightarrow> DenyListChecker" where
  "removeRule this ruleId = this\<lparr> rules := filter (\<lambda>rule. id_rule rule \<noteq> ruleId) (rules this) \<rparr>"

section \<open>config/chains.ts\<close>

text \<open>Values thrown by the source, and failures raised by the libraries it calls.\<close>

datatype error =
    UnsupportedChainIds "int option list"
  | NoEnabledChains
  | UnsupportedChainId "int option"
  | InvalidPrivateKey
  | NoProtocolKit int
  | External string

text \<open>
  A JavaScript number that is looked up as a chain id: an integer, or \<open>None\<close> for \<open>NaN\<close>.
  \<open>parseInt(string, radix)\<close> follows ECMAScript: leading white space is skipped, a sign is
  read, radix 0 stands for an absent radix, \<open>0x\<close> is stripped for radix 0 and 16, and the
  longest run of digits of the radix is the value; no digit gives \<open>NaN\<close>.
\<close>

definition digitValue :: "char \<Rightarrow> nat" where
  "digitValue c =
     (let n = (of_char c :: nat) in
        if 48 \<le> n \<and> n \<le> 57 then n - 48
        else if 97 \<le> n \<and> n \<le> 122 then n - 87
        else if 65 \<le> n \<and> n \<le> 90 then n - 55
        else 36)"

definition parseInt :: "string \<Rightarrow> nat \<Rightarrow> int option" where
  "parseInt string radix =
     (let S = dropWhile isWhiteSpace string;
          sign = (if take 1 S = ''-'' then - 1 else 1 :: int);
          S1 = (if take 1 S = ''+'' \<or> take 1 S = ''-'' then drop 1 S else S);
          stripPrefix = (radix = 0 \<or> radix = 16);
          hex = (stripPrefix \<and> (take 2 S1 = ''0x'' \<or> take 2 S1 = ''0X''));
          R = (if hex then 16 else if radix = 0 then 10 else radix);
          S2 = (if hex then drop 2 S1 else S1);
          Z = takeWhile (\<lambda>c. digitValue c < R) S2
      in if radix \<noteq> 0 \<and> (radix < 2 \<or> 36 < radix) then None
         else if Z = [] then None
         else Some (sign * int (foldl (\<lambda>a c. a * R + digitValue c) 0 Z)))"

text \<open>The chain ids of viem's \<open>mainnet\<close>, \<open>polygon\<close>, \<open>arbitrum\<close>, \<open>optimism\<close>, \<open>gnosis\<close> and
  \<open>base\<close> (the README lists them), and of \<open>sonic\<close>, which the source defines.\<close>

definition mainnet_id :: int where "mainnet_id = 1"
definition polygon_id :: int where "polygon_id = 137"
definition arbitrum_id :: int where "arbitrum_id = 42161"
definition optimism_id :: int where "optimism_id = 10"
definition gnosis_id :: int where "gnosis_id = 100"
definition base_id :: int where "base_id = 8453"
definition sonic_id :: int where "sonic_id = 146"

text \<open>\<open>CHAIN_CONFIGS\<close> is used only through \<open>CHAIN_CONFIGS[chainId]\<close> being truthy, that is,
  through its keys.\<close>

definition CHAIN_CONFIGS :: "int list" where
  "CHAIN_CONFIGS =
     [mainnet_id, polygon_id, arbitrum_id, optimism_id, gnosis_id, base_id, sonic_id]"

definition hasChainConfig :: "int option \<Rightarrow> bool" where
  "hasChainConfig chainId =
     (case chainId of None \<Rightarrow> False | Some c \<Rightarrow> List.member CHAIN_CONFIGS c)"

definition getEnabledChains :: "env \<Rightarrow> int option list" where
  "getEnabledChains e =
     (case e ''ENABLED_CHAINS'' of
        None \<Rightarrow> [Some mainnet_id, Some polygon_id]
      | Some enabledChains \<Rightarrow>
          if enabledChains = [] then [Some mainnet_id, Some polygon_id]
          else filter hasChainConfig
                 (map (\<lambda>chainId. parseInt (trim chainId) 10) (split_comma enabledChains)))"

definition validateEnabledChains :: "env \<Rightarrow> error + unit" where
  "validateEnabledChains e =
     (let enabledChains = getEnabledChains e;
          unsupportedChains = filter (\<lambda>chainId. \<not> hasChainConfig chainId) enabledChains
      in if length unsupportedChains > 0 then Inl (UnsupportedChainIds unsupportedChains)
         else if length enabledChains = 0 then Inl NoEnabledChains
         else Inr ())"

definition getChainConfig :: "int option \<Rightarrow> error + int" where
  "getChainConfig chainId =
     (case chainId of
        None \<Rightarrow> Inl (UnsupportedChainId chainId)
      | Some c \<Rightarrow> if List.member CHAIN_CONFIGS c then Inr c
                  else Inl (UnsupportedChainId chainId))"

section \<open>The constructor of SafeRemoteSigner (bot.ts)\<close>

text \<open>
  \<open>new SimpleSigner(config)\<close> derives the account from the private key with viem and throws
  \<open>Invalid private key provided\<close> when that fails; the model takes the derived address, or
  \<open>None\<close> for a key viem refuses. \<open>new SafeService(...)\<close> stores its arguments and does not
  throw.
\<close>

record SimpleSigner =
  address :: string

definition newSimpleSigner :: "string option \<Rightarrow> error + SimpleSigner" where
  "newSimpleSigner account =
     (case account of
        None \<Rightarrow> Inl InvalidPrivateKey
      | Some a \<Rightarrow> Inr \<lparr> address = a \<rparr>)"

record SafeRemoteSigner =
  signer :: SimpleSigner
  isRunning :: bool
  bot_enabledChains :: "int option list"

definition newSafeRemoteSigner :: "env \<Rightarrow> string option \<Rightarrow> error + SafeRemoteSigner" where
  "newSafeRemoteSigner e account =
     (case validateEnabledChains e of
        Inl err \<Rightarrow> Inl err
      | Inr u \<Rightarrow>
          (case newSimpleSigner account of
             Inl err \<Rightarrow> Inl err
           | Inr s \<Rightarrow>
               Inr \<lparr> signer = s, isRunning = False, bot_enabledChains = getEnabledChains e \<rparr>))"

section \<open>services/safeService.ts\<close>

text \<open>The fields of the transaction service's answers that the source reads.\<close>

record Confirmation =
  owner :: string

record SafeMultisigTransactionResponse =
  tx_safeTxHash :: string
  tx_to :: "string option"
  tx_value :: string
  tx_data :: "string option"
  tx_operation :: "OperationType option"
  tx_nonce :: "string + int"
  tx_confirmationsRequired :: nat
  tx_confirmations :: "Confirmation list option"

record SafeMessage =
  msg_messageHash :: string
  msg_confirmations :: "Confirmation list option"

record PendingTransaction =
  pt_chainId :: int
  pt_safeTxHash :: string
  pt_transaction :: SafeMultisigTransactionResponse
  pt_nonce :: "int option"
  pt_confirmationsRequired :: nat
  pt_confirmations :: nat

record PendingMessage =
  pm_chainId :: int
  pm_messageHash :: string
  pm_message :: SafeMessage
  pm_confirmationsRequired :: nat
  pm_confirmations :: nat

text \<open>
  The collaborators: the transaction service behind the per-chain \<open>SafeApiKit\<close> and the
  per-chain protocol kit that signs. Each call reads and changes an outside world \<open>'w\<close> and
  either raises or returns.
\<close>

record 'w Externals =
  api_getPendingTransactions ::
    "int \<Rightarrow> string \<Rightarrow> 'w \<Rightarrow> (error + SafeMultisigTransactionResponse list) \<times> 'w"
  api_getMessages :: "int \<Rightarrow> string \<Rightarrow> 'w \<Rightarrow> (error + SafeMessage list) \<times> 'w"
  api_confirmTransaction :: "int \<Rightarrow> string \<Rightarrow> string \<Rightarrow> 'w \<Rightarrow> (error + unit) \<times> 'w"
  api_addMessageSignature :: "int \<Rightarrow> string \<Rightarrow> string \<Rightarrow> 'w \<Rightarrow> (error + unit) \<times> 'w"
  kit_signHash :: "int \<Rightarrow> string \<Rightarrow> 'w \<Rightarrow> (error + string) \<times> 'w"

text \<open>
  What a run does to the outside, in order: the calls to the collaborators, and the entry
  into \<open>processTransaction\<close> and \<open>processMessage\<close> (the source logs
  \<open>processing_started\<close> and \<open>Processing message\<close> there).
\<close>

datatype event =
    GetPendingTransactions int
  | GetMessages int
  | ProcessingStarted int string
  | ProcessingMessage int string
  | SignTransactionHash int string
  | SignMessageHash int string
  | ConfirmTransaction int string string
  | AddMessageSignature int string string

text \<open>The object: the maps \<open>safeApiKits\<close> and \<open>safeProtocolKits\<close> are given by their keys.\<close>

record SafeService =
  safeApiKits :: "int list"
  safeProtocolKits :: "int list"
  signerAddress :: string
  denyListChecker :: DenyListChecker
  safeAddress :: string
  enabledChains :: "int list"

text \<open>\<open>rateLimitedApiCall\<close> hands the call to the limiter, logs, and rethrows a failure
  unchanged. The calls of one scan are awaited one at a time, so the limiter admits each
  at once.\<close>

definition rateLimitedApiCall :: "('w \<Rightarrow> (error + 'a) \<times> 'w) \<Rightarrow> 'w \<Rightarrow> (error + 'a) \<times> 'w" where
  "rateLimitedApiCall apiCall w = apiCall w"

definition toPendingTransaction :: "int \<Rightarrow> SafeMultisigTransactionResponse \<Rightarrow> PendingTransaction" where
  "toPendingTransaction chainId tx =
     \<lparr> pt_chainId = chainId,
       pt_safeTxHash = tx_safeTxHash tx,
       pt_transaction = tx,
       pt_nonce = (case tx_nonce tx of Inl s \<Rightarrow> parseInt s 0 | Inr n \<Rightarrow> Some n),
       pt_confirmationsRequired =
         (if tx_confirmationsRequired tx = 0 then 1 else tx_confirmationsRequired tx),
       pt_confirmations = (case tx_confirmations tx of None \<Rightarrow> 0 | Some cs \<Rightarrow> length cs) \<rparr>"

text \<open>
  \<open>getPendingTransactions\<close>: the loop over \<open>enabledChains\<close>. A chain without an API kit is
  skipped; a failed fetch is caught and logged and the loop goes on; each fetched
  transaction is pushed in the order of \<open>results\<close>. The items of the chains still to come
  follow those of the current chain, as repeated \<open>push\<close> leaves them. The 250 ms pause
  between chains is not modelled.
\<close>

fun getPendingTransactions_loop ::
  "'w Externals \<Rightarrow> SafeService \<Rightarrow> int list \<Rightarrow> 'w \<Rightarrow> PendingTransaction list \<times> event list \<times> 'w" where
  "getPendingTransactions_loop X this [] w = ([], [], w)"
| "getPendingTransactions_loop X this (chainId # rest) w =
     (if \<not> List.member (safeApiKits this) chainId
      then getPendingTransactions_loop X this rest w
      else
        (case rateLimitedApiCall (api_getPendingTransactions X chainId (safeAddress this)) w of
           (Inl err, w1) \<Rightarrow>
             (case getPendingTransactions_loop X this rest w1 of
                (others, evs, w2) \<Rightarrow> (others, GetPendingTransactions chainId # evs, w2))
         | (Inr results, w1) \<Rightarrow>
             (case getPendingTransactions_loop X this rest w1 of
                (others, evs, w2) \<Rightarrow>
                  (map (toPendingTransaction chainId) results @ others,
                   GetPendingTransactions chainId # evs, w2))))"

definition getPendingTransactions ::
  "'w Externals \<Rightarrow> SafeService \<Rightarrow> 'w \<Rightarrow> PendingTransaction list \<times> event list \<times> 'w" where
  "getPendingTransactions X this w = getPendingTransactions_loop X this (enabledChains this) w"

definition confirmationCount :: "SafeMessage \<Rightarrow> nat" where
  "confirmationCount message =
     (case msg_confirmations message of None \<Rightarrow> 0 | Some cs \<Rightarrow> length cs)"

definition toPendingMessage :: "int \<Rightarrow> SafeMessage \<Rightarrow> PendingMessage" where
  "toPendingMessage chainId message =
     \<lparr> pm_chainId = chainId,
       pm_messageHash = msg_messageHash message,
       pm_message = message,
       pm_confirmationsRequired = 2,
       pm_confirmations = confirmationCount message \<rparr>"

text \<open>\<open>confirmationsNeeded = 2 - (message.confirmations?.length || 0)\<close>, kept when positive.\<close>

definition needsConfirmations :: "SafeMessage \<Rightarrow> bool" where
  "needsConfirmations message =
     (let confirmationsNeeded = 2 - int (confirmationCount message) in confirmationsNeeded > 0)"

fun getPendingMessages_loop ::
  "'w Externals \<Rightarrow> SafeService \<Rightarrow> int list \<Rightarrow> 'w \<Rightarrow> PendingMessage list \<times> event list \<times> 'w" where
  "getPendingMessages_loop X this [] w = ([], [], w)"
| "getPendingMessages_loop X this (chainId # rest) w =
     (if \<not> List.member (safeApiKits this) chainId
      then getPendingMessages_loop X this rest w
      else
        (case rateLimitedApiCall (api_getMessages X chainId (safeAddress this)) w of
           (Inl err, w1) \<Rightarrow>
             (case getPendingMessages_loop X this rest w1 of
                (others, evs, w2) \<Rightarrow> (others, GetMessages chainId # evs, w2))
         | (Inr results, w1) \<Rightarrow>
             (case getPendingMessages_loop X this rest w1 of
                (others, evs, w2) \<Rightarrow>
                  (map (toPendingMessage chainId) (filter needsConfirmations results) @ others,
                   GetMessages chainId # evs, w2))))"

definition getPendingMessages ::
  "'w Externals \<Rightarrow> SafeService \<Rightarrow> 'w \<Rightarrow> PendingMessage list \<times> event list \<times> 'w" where
  "getPendingMessages X this w = getPendingMessages_loop X this (enabledChains this) w"

definition hasAlreadySigned :: "SafeService \<Rightarrow> SafeMultisigTransactionResponse \<Rightarrow> bool" where
  "hasAlreadySigned this transaction =
     (let signerAddress = toLowerCase (signerAddress this)
      in case tx_confirmations transaction of
           None \<Rightarrow> False
         | Some cs \<Rightarrow>
             list_ex (\<lambda>confirmation. toLowerCase (owner confirmation) = signerAddress) cs)"

definition hasAlreadySignedMessage :: "SafeService \<Rightarrow> SafeMessage \<Rightarrow> bool" where
  "hasAlreadySignedMessage this message =
     (let signerAddress = toLowerCase (signerAddress this)
      in case msg_confirmations message of
           None \<Rightarrow> False
         | Some cs \<Rightarrow>
             list_ex (\<lambda>confirmation. toLowerCase (owner confirmation) = signerAddress) cs)"

definition signTransaction ::
  "'w Externals \<Rightarrow> SafeService \<Rightarrow> string \<Rightarrow> int \<Rightarrow> 'w \<Rightarrow> (error + string) \<times> event list \<times> 'w" where
  "signTransaction X this safeTxHash chainId w =
     (if \<not> List.member (safeProtocolKits this) chainId then (Inl (NoProtocolKit chainId), [], w)
      else
        (case kit_signHash X chainId safeTxHash w of
           (r, w1) \<Rightarrow> (r, [SignTransactionHash chainId safeTxHash], w1)))"

text \<open>\<open>transaction.data || "0x"\<close>.\<close>

definition dataOrEmpty :: "string option \<Rightarrow> string" where
  "dataOrEmpty d = (case d of None \<Rightarrow> ''0x'' | Some s \<Rightarrow> if s = [] then ''0x'' else s)"

text \<open>
  \<open>processTransaction\<close>: everything is inside one \<open>try\<close>, whose \<open>catch\<close> logs and returns
  false. \<open>this.safeApiKits.get(chainId)!\<close> is undefined for a chain without a kit, and the
  call on it raises before anything is sent.
\<close>

definition processTransaction ::
  "'w Externals \<Rightarrow> SafeService \<Rightarrow> env \<Rightarrow> PendingTransaction \<Rightarrow> 'w \<Rightarrow> bool \<times> event list \<times> 'w" where
  "processTransaction X this e pendingTx w =
     (let chainId = pt_chainId pendingTx;
          safeTxHash = pt_safeTxHash pendingTx;
          transaction = pt_transaction pendingTx;
          started = [ProcessingStarted chainId safeTxHash]
      in if hasAlreadySigned this transaction then (False, started, w)
         else
           let denyCheck = isDenied (denyListChecker this) e
                 \<lparr> to = tx_to transaction,
                   value_wei = tx_value transaction,
                   data = Some (dataOrEmpty (tx_data transaction)),
                   operation = tx_operation transaction \<rparr>
           in if denied denyCheck then (False, started, w)
              else
                (case signTransaction X this safeTxHash chainId w of
                   (Inl err, evs, w1) \<Rightarrow> (False, started @ evs, w1)
                 | (Inr signature, evs, w1) \<Rightarrow>
                     if \<not> List.member (safeApiKits this) chainId
                     then (False, started @ evs, w1)
                     else
                       (case rateLimitedApiCall
                               (api_confirmTransaction X chainId safeTxHash signature) w1 of
                          (Inl err, w2) \<Rightarrow>
                            (False,
                             started @ evs @ [ConfirmTransaction chainId safeTxHash signature],
                             w2)
                        | (Inr u, w2) \<Rightarrow>
                            (True,
                             started @ evs @ [ConfirmTransaction chainId safeTxHash signature],
                             w2))))"

definition processMessage ::
  "'w Externals \<Rightarrow> SafeService \<Rightarrow> PendingMessage \<Rightarrow> 'w \<Rightarrow> bool \<times> event list \<times> 'w" where
  "processMessage X this pendingMsg w =
     (let chainId = pm_chainId pendingMsg;
          messageHash = pm_messageHash pendingMsg;
          message = pm_message pendingMsg;
          started = [ProcessingMessage chainId messageHash]
      in if hasAlreadySignedMessage this message then (False, started, w)
         else if \<not> List.member (safeProtocolKits this) chainId then (False, started, w)
         else
           (case kit_signHash X chainId messageHash w of
              (Inl err, w1) \<Rightarrow> (False, started @ [SignMessageHash chainId messageHash], w1)
            | (Inr signature, w1) \<Rightarrow>
                if \<not> List.member (safeApiKits this) chainId
                then (False, started @ [SignMessageHash chainId messageHash], w1)
                else
                  (case rateLimitedApiCall
                          (api_addMessageSignature X chainId messageHash signature) w1 of
                     (Inl err, w2) \<Rightarrow>
                       (False,
                        started @ [SignMessageHash chainId messageHash,
                                   AddMessageSignature chainId messageHash signature],
                        w2)
                   | (Inr u, w2) \<Rightarrow>
                       (True,
                        started @ [SignMessageHash chainId messageHash,
                                   AddMessageSignature chainId messageHash signature],
                        w2))))"

section \<open>The scan cycle (bot.ts)\<close>

text \<open>The two \<open>for\<close> loops of \<open>scanAndProcess\<close>, each with its counter.\<close>

fun processTransactions_loop ::
  "'w Externals \<Rightarrow> SafeService \<Rightarrow> env \<Rightarrow> PendingTransaction list \<Rightarrow> nat \<Rightarrow> 'w
     \<Rightarrow> nat \<times> event list \<times> 'w" where
  "processTransactions_loop X safeService e [] processedCount w = (processedCount, [], w)"
| "processTransactions_loop X safeService e (pendingTx # rest) processedCount w =
     (case processTransaction X safeService e pendingTx w of
        (processed, evs, w1) \<Rightarrow>
          (case processTransactions_loop X safeService e rest
                  (if processed then processedCount + 1 else processedCount) w1 of
             (n, evs', w2) \<Rightarrow> (n, evs @ evs', w2)))"

fun processMessages_loop ::
  "'w Externals \<Rightarrow> SafeService \<Rightarrow> PendingMessage list \<Rightarrow> nat \<Rightarrow> 'w \<Rightarrow> nat \<times> event list \<times> 'w" where
  "processMessages_loop X safeService [] processedMessageCount w = (processedMessageCount, [], w)"
| "processMessages_loop X safeService (pendingMsg # rest) processedMessageCount w =
     (case processMessage X safeService pendingMsg w of
        (processed, evs, w1) \<Rightarrow>
          (case processMessages_loop X safeService rest
                  (if processed then processedMessageCount + 1 else processedMessageCount) w1 of
             (n, evs', w2) \<Rightarrow> (n, evs @ evs', w2)))"

text \<open>\<open>scanAndProcess\<close> returns nothing in the source; the model returns the two counters it
  logs, with the events of the cycle.\<close>

definition scanAndProcess ::
  "'w Externals \<Rightarrow> SafeService \<Rightarrow> env \<Rightarrow> 'w \<Rightarrow> (nat \<times> nat) \<times> event list \<times> 'w" where
  "scanAndProcess X safeService e w =
     (case getPendingTransactions X safeService w of
        (pendingTransactions, ev1, w1) \<Rightarrow>
          (case processTransactions_loop X safeService e pendingTransactions 0 w1 of
             (processedCount, ev2, w2) \<Rightarrow>
               (case getPendingMessages X safeService w2 of
                  (pendingMessages, ev3, w3) \<Rightarrow>
                    (case processMessages_loop X safeService pendingMessages 0 w3 of
                       (processedMessageCount, ev4, w4) \<Rightarrow>
                         ((processedCount, processedMessageCount),
                          ev1 @ ev2 @ ev3 @ ev4, w4)))))"


text \<open>The chain and hash of an entry that concerns a message.\<close>

fun messageOf :: "event \<Rightarrow> (int \<times> string) option" where
  "messageOf (ProcessingMessage c h) = Some (c, h)"
| "messageOf (SignMessageHash c h) = Some (c, h)"
| "messageOf (AddMessageSignature c h s) = Some (c, h)"
| "messageOf ev = None"




text \<open>The spec's wording of the decision, for comparison with \<open>isDenied\<close>: walk the rule
  list from its head, test every rule, and keep one reason per rule that triggers.\<close>

fun spec_collectReasons :: "env \<Rightarrow> MetaTransactionData \<Rightarrow> DenyListRule list \<Rightarrow> string list" where
  "spec_collectReasons e tx [] = []"
| "spec_collectReasons e tx (r # rs) =
     (if check r e tx then (id_rule r @ '': '' @ description r) # spec_collectReasons e tx rs
      else spec_collectReasons e tx rs)"


section \<open>Concrete inputs\<close>

definition noEnv :: env where
  "noEnv = (\<lambda>k. None)"

definition trustedEnv :: env where
  "trustedEnv =
     (\<lambda>k. if k = ''TRUSTED_DELEGATE_CONTRACTS''
          then Some ''0x40A2aCCbd92BCA938b02010E17A5b8929b49130D, 0x9641d764fc13c8B624c04430C7356C1C7C8102e2''
          else None)"

definition tx_changeThreshold :: MetaTransactionData where
  "tx_changeThreshold =
     \<lparr> to = Some ''0x41675C099F32341bf84BFc5382aF534df5C7461a'', value_wei = ''0'',
       data = Some ''0x694e80c30000000000000000000000000000000000000000000000000000000000000001'',
       operation = Some Call \<rparr>"

definition tx_addOwner :: MetaTransactionData where
  "tx_addOwner =
     \<lparr> to = Some ''0x41675C099F32341bf84BFc5382aF534df5C7461a'', value_wei = ''0'',
       data = Some ''0x0D582F13000000000000000000000000a0b86991c6218b36c1d19d4a2e9eb0ce3606eb480000000000000000000000000000000000000000000000000000000000000002'',
       operation = Some Call \<rparr>"

definition tx_delegate_noTarget :: MetaTransactionData where
  "tx_delegate_noTarget =
     \<lparr> to = Some [], value_wei = ''0'', data = Some ''0x'', operation = Some DelegateCall \<rparr>"





definition env_1_999 :: env where
  "env_1_999 = (\<lambda>k. if k = ''ENABLED_CHAINS'' then Some ''1,999'' else None)"

definition operatorAddress :: string where
  "operatorAddress = ''0x9641d764fc13c8B624c04430C7356C1C7C8102e2''"

definition otherOwner :: Confirmation where
  "otherOwner = \<lparr> owner = ''0x40A2aCCbd92BCA938b02010E17A5b8929b49130D'' \<rparr>"


definition rsp_first :: SafeMultisigTransactionResponse where
  "rsp_first =
     \<lparr> tx_safeTxHash = ''0xaa01'',
       tx_to = Some ''0x41675C099F32341bf84BFc5382aF534df5C7461a'',
       tx_value = ''1000'', tx_data = None, tx_operation = Some Call,
       tx_nonce = Inl ''7'', tx_confirmationsRequired = 2,
       tx_confirmations = Some [otherOwner] \<rparr>"

definition rsp_second :: SafeMultisigTransactionResponse where
  "rsp_second =
     \<lparr> tx_safeTxHash = ''0xbb02'',
       tx_to = Some ''0x41675C099F32341bf84BFc5382aF534df5C7461a'',
       tx_value = ''0'', tx_data = Some [], tx_operation = Some Call,
       tx_nonce = Inr 8, tx_confirmationsRequired = 2,
       tx_confirmations = None \<rparr>"


definition msg_first :: SafeMessage where
  "msg_first = \<lparr> msg_messageHash = ''0xcc03'', msg_confirmations = Some [otherOwner] \<rparr>"

definition msg_second :: SafeMessage where
  "msg_second = \<lparr> msg_messageHash = ''0xdd04'', msg_confirmations = None \<rparr>"

definition msg_twice :: SafeMessage where
  "msg_twice =
     \<lparr> msg_messageHash = ''0xff06'',
       msg_confirmations =
         Some [otherOwner, \<lparr> owner = ''0x41675C099F32341bf84BFc5382aF534df5C7461a'' \<rparr>] \<rparr>"


text \<open>A transaction service that answers for chains 1 and 137 and refuses the connection
  for every other chain; the world counts the calls it has answered.\<close>

definition demoExternals :: "nat Externals" where
  "demoExternals =
     \<lparr> api_getPendingTransactions =
         (\<lambda>c a w. (if c = 1 then Inr [rsp_first]
                    else if c = 137 then Inr [rsp_second]
                    else Inl (External ''ECONNREFUSED''), w + 1)),
       api_getMessages =
         (\<lambda>c a w. (if c = 1 then Inr [msg_first, msg_twice]
                    else if c = 137 then Inr [msg_second]
                    else Inl (External ''ECONNREFUSED''), w + 1)),
       api_confirmTransaction = (\<lambda>c h s w. (Inr (), w + 1)),
       api_addMessageSignature = (\<lambda>c h s w. (Inr (), w + 1)),
       kit_signHash = (\<lambda>c h w. (Inr (''sig:'' @ h), w)) \<rparr>"

definition demoService :: "int list \<Rightarrow> SafeService" where
  "demoService chainIds =
     \<lparr> safeApiKits = chainIds, safeProtocolKits = chainIds,
       signerAddress = operatorAddress,
       denyListChecker = newDenyListChecker [],
       safeAddress = ''0x41675C099F32341bf84BFc5382aF534df5C7461a'',
       enabledChains = chainIds \<rparr>"

section \<open>Facts about the string operations\<close>

lemma length_toLowerCase: "length (toLowerCase s) = length s"
  by (simp add: toLowerCase_def)

lemma take_toLowerCase: "take n (toLowerCase s) = toLowerCase (take n s)"
  by (simp add: toLowerCase_def take_map)


lemma startsWith_lower:
  "startsWith (toLowerCase d) (toLowerCase sel) \<longleftrightarrow>
     toLowerCase (take (length sel) d) = toLowerCase sel"
  by (simp add: startsWith_def length_toLowerCase take_toLowerCase)

lemma member_set: "List.member xs x \<longleftrightarrow> x \<in> set xs"
  by (induction xs) auto

section \<open>The deny list\<close>

lemma someSelector_iff:
  "someSelector sels tx \<longleftrightarrow>
     (\<exists>d. data tx = Some d \<and>
        (\<exists>sel \<in> set sels. toLowerCase (take (length sel) d) = toLowerCase sel))"
  by (cases "data tx") (auto simp: someSelector_def list_ex_iff startsWith_lower)


lemma isDenied_reasons:
  "reasons (isDenied this e tx) = map reasonOf (filter (\<lambda>r. check r e tx) (rules this))"
  by (simp add: isDenied_def Let_def)

lemma isDenied_denied:
  "denied (isDenied this e tx) \<longleftrightarrow> (\<exists>r \<in> set (rules this). check r e tx)"
  by (auto simp: isDenied_def Let_def filter_empty_conv)

lemma triggered_rule_denies:
  assumes "r \<in> set (rules this)" "check r e tx"
  shows "denied (isDenied this e tx) \<and> reasonOf r \<in> set (reasons (isDenied this e tx))"
  using assms by (auto simp: isDenied_denied isDenied_reasons)

lemma lower_sels:
  "toLowerCase addOwnerWithThreshold_sel = addOwnerWithThreshold_sel"
  "toLowerCase removeOwner_sel = removeOwner_sel"
  "toLowerCase swapOwner_sel = swapOwner_sel"
  "toLowerCase changeThreshold_sel = changeThreshold_sel"
  "toLowerCase enableModule_sel = enableModule_sel"
  "toLowerCase disableModule_sel = disableModule_sel"
  by code_simp+

lemma length_sels:
  "length addOwnerWithThreshold_sel = 10"
  "length removeOwner_sel = 10"
  "length swapOwner_sel = 10"
  "length changeThreshold_sel = 10"
  "length enableModule_sel = 10"
  "length disableModule_sel = 10"
  by (simp_all add: addOwnerWithThreshold_sel_def removeOwner_sel_def swapOwner_sel_def
      changeThreshold_sel_def enableModule_sel_def disableModule_sel_def)

lemma ownership_check_iff:
  "check SAFE_OWNERSHIP_TRANSFER e tx \<longleftrightarrow>
     (\<exists>d. data tx = Some d \<and>
        toLowerCase (take 10 d) \<in>
          {addOwnerWithThreshold_sel, removeOwner_sel, swapOwner_sel, changeThreshold_sel})"
  by (auto simp: SAFE_OWNERSHIP_TRANSFER_def someSelector_iff lower_sels length_sels)

lemma check_DELEGATE: "check DELEGATE_CALL_RESTRICTION = delegateCallCheck"
  by (simp add: DELEGATE_CALL_RESTRICTION_def)

lemma delegateCallCheck_iff:
  "delegateCallCheck e tx \<longleftrightarrow>
     operation tx = Some DelegateCall \<and>
     (trustedDelegateContracts e = [] \<or>
      (\<exists>t. to tx = Some t \<and> t \<noteq> [] \<and> toLowerCase t \<notin> set (trustedDelegateContracts e)))"
  by (cases "to tx") (auto simp: delegateCallCheck_def member_set)

lemma reasonOf_distinct:
  "reasonOf SAFE_OWNERSHIP_TRANSFER \<noteq> reasonOf DELEGATE_CALL_RESTRICTION"
  "reasonOf SAFE_THRESHOLD_CHANGE \<noteq> reasonOf DELEGATE_CALL_RESTRICTION"
  "reasonOf SAFE_MODULE_MANAGEMENT \<noteq> reasonOf DELEGATE_CALL_RESTRICTION"
  by (simp_all add: reasonOf_def SAFE_OWNERSHIP_TRANSFER_def SAFE_THRESHOLD_CHANGE_def
      SAFE_MODULE_MANAGEMENT_def DELEGATE_CALL_RESTRICTION_def)

lemma collect_filter:
  "spec_collectReasons e tx rs = map reasonOf (filter (\<lambda>r. check r e tx) rs)"
  by (induction rs) (simp_all add: reasonOf_def)



subsection \<open>C1: the ownership-transfer rule\<close>

text \<open>
  C1, as stated, fails: the selector list of \<open>SAFE_OWNERSHIP_TRANSFER\<close> has a fourth entry,
  \<open>changeThreshold(uint256)\<close>. On call data that starts with that selector the rule
  fires, although the data starts with none of the add-owner, remove-owner and swap-owner
  selectors.
\<close>

theorem ownership_rule_fires_on_changeThreshold:
  "check SAFE_OWNERSHIP_TRANSFER noEnv tx_changeThreshold = True
   \<and> someSelector [addOwnerWithThreshold_sel, removeOwner_sel, swapOwner_sel]
        tx_changeThreshold = False"
  by code_simp

text \<open>
  C1, amended: the ownership-transfer rule fires if and only if the call data is present and
  its first ten characters (\<open>0x\<close> and the four selector bytes), in lower case, are the
  selector of add-owner, remove-owner, swap-owner or change-threshold. For such an action
  \<open>isDenied\<close>, on the built-in rules followed by any custom rules, returns \<open>denied = true\<close>
  with the reason of that rule among its reasons.
\<close>

theorem ownership_rule_fires_iff:
  "(check SAFE_OWNERSHIP_TRANSFER e tx \<longleftrightarrow>
     (\<exists>d. data tx = Some d \<and>
        toLowerCase (take 10 d) \<in>
          {addOwnerWithThreshold_sel, removeOwner_sel, swapOwner_sel, changeThreshold_sel}))
   \<and> (check SAFE_OWNERSHIP_TRANSFER e tx \<longrightarrow>
        denied (isDenied (newDenyListChecker customRules) e tx) \<and>
        ''SAFE_OWNERSHIP_TRANSFER: Prevent Safe ownership transfer operations''
          \<in> set (reasons (isDenied (newDenyListChecker customRules) e tx)))"
proof -
  have mem: "SAFE_OWNERSHIP_TRANSFER \<in> set (rules (newDenyListChecker customRules))"
    by (simp add: newDenyListChecker_def DENY_LIST_RULES_def)
  have r: "reasonOf SAFE_OWNERSHIP_TRANSFER =
      ''SAFE_OWNERSHIP_TRANSFER: Prevent Safe ownership transfer operations''"
    by (simp add: reasonOf_def SAFE_OWNERSHIP_TRANSFER_def)
  show ?thesis
    using triggered_rule_denies [OF mem, of e tx] ownership_check_iff [of e tx] r by simp
qed

theorem ownership_rule_fires_iff_witness:
  "check SAFE_OWNERSHIP_TRANSFER noEnv tx_addOwner
   \<and> denied (isDenied (newDenyListChecker []) noEnv tx_addOwner)
   \<and> ''SAFE_OWNERSHIP_TRANSFER: Prevent Safe ownership transfer operations''
        \<in> set (reasons (isDenied (newDenyListChecker []) noEnv tx_addOwner))"
proof -
  have fires: "check SAFE_OWNERSHIP_TRANSFER noEnv tx_addOwner"
    by code_simp
  show ?thesis
    using ownership_rule_fires_iff [of noEnv tx_addOwner "[]"] fires by blast
qed

subsection \<open>C2: the delegate-call rule\<close>




subsection \<open>C9: a delegate call without a target\<close>

text \<open>
  C9: for a delegate call with a non-empty allowlist and an absent or empty target address,
  the delegate-call rule does not fire, and the decision of the built-in rule set does not
  carry that rule's reason: the missing target is let through by this rule.
\<close>

theorem delegate_rule_missing_target_fail_open:
  assumes "operation tx = Some DelegateCall"
    and "trustedDelegateContracts e \<noteq> []"
    and "to tx = None \<or> to tx = Some []"
  shows "\<not> check DELEGATE_CALL_RESTRICTION e tx \<and>
         reasonOf DELEGATE_CALL_RESTRICTION
           \<notin> set (reasons (isDenied (newDenyListChecker []) e tx))"
proof -
  have nofire: "\<not> check DELEGATE_CALL_RESTRICTION e tx"
    using assms by (auto simp: check_DELEGATE delegateCallCheck_iff)
  then show ?thesis
    using reasonOf_distinct
    by (auto simp: isDenied_reasons newDenyListChecker_def DENY_LIST_RULES_def)
qed

theorem delegate_rule_missing_target_fail_open_witness:
  "operation tx_delegate_noTarget = Some DelegateCall
   \<and> trustedDelegateContracts trustedEnv \<noteq> []
   \<and> to tx_delegate_noTarget = Some []
   \<and> \<not> check DELEGATE_CALL_RESTRICTION trustedEnv tx_delegate_noTarget
   \<and> denied (isDenied (newDenyListChecker []) trustedEnv tx_delegate_noTarget) = False"
proof -
  have op: "operation tx_delegate_noTarget = Some DelegateCall"
    by (simp add: tx_delegate_noTarget_def)
  have al: "trustedDelegateContracts trustedEnv \<noteq> []"
    by code_simp
  have tg: "to tx_delegate_noTarget = None \<or> to tx_delegate_noTarget = Some []"
    by (simp add: tx_delegate_noTarget_def)
  have dn: "denied (isDenied (newDenyListChecker []) trustedEnv tx_delegate_noTarget) = False"
    by code_simp
  show ?thesis
    using delegate_rule_missing_target_fail_open [OF op al tg] op al dn
    by (simp add: tx_delegate_noTarget_def)
qed

subsection \<open>C4: every rule is evaluated\<close>

text \<open>
  C4: for every action and every rule list, the reasons returned by \<open>isDenied\<close> are those
  collected by walking the whole rule list in order, one entry per triggered rule; the
  number of reasons is the number of triggered rules; a rule list split in two gives the
  reasons of the first part followed by those of the second, so a triggered rule never
  hides a later one; and \<open>denied\<close> is true exactly when the reasons are non-empty.
\<close>

theorem isDenied_collects_every_triggered_rule:
  "reasons (isDenied this e tx) = spec_collectReasons e tx (rules this)
   \<and> (denied (isDenied this e tx) \<longleftrightarrow> reasons (isDenied this e tx) \<noteq> [])
   \<and> length (reasons (isDenied this e tx)) = length (filter (\<lambda>r. check r e tx) (rules this))
   \<and> reasons (isDenied (this\<lparr>rules := rs1 @ rs2\<rparr>) e tx) =
       reasons (isDenied (this\<lparr>rules := rs1\<rparr>) e tx)
         @ reasons (isDenied (this\<lparr>rules := rs2\<rparr>) e tx)"
  by (simp add: isDenied_reasons collect_filter isDenied_def Let_def)

theorem isDenied_collects_every_triggered_rule_witness:
  "reasons (isDenied (newDenyListChecker []) noEnv tx_changeThreshold)
     = [''SAFE_OWNERSHIP_TRANSFER: Prevent Safe ownership transfer operations'',
        ''SAFE_THRESHOLD_CHANGE: Prevent Safe threshold change operations'']
   \<and> denied (isDenied (newDenyListChecker []) noEnv tx_changeThreshold)"
proof -
  have "spec_collectReasons noEnv tx_changeThreshold (rules (newDenyListChecker []))
     = [''SAFE_OWNERSHIP_TRANSFER: Prevent Safe ownership transfer operations'',
        ''SAFE_THRESHOLD_CHANGE: Prevent Safe threshold change operations'']"
    by code_simp
  then show ?thesis
    using isDenied_collects_every_triggered_rule
            [of "newDenyListChecker []" noEnv tx_changeThreshold "[]" "[]"]
    by simp
qed

subsection \<open>C8: selector matching\<close>



section \<open>The scan: fetching and processing\<close>




lemma getPendingMessages_loop_single:
  assumes "List.member (safeApiKits S) c"
  shows "getPendingMessages_loop X S [c] w =
     (case api_getMessages X c (safeAddress S) w of
        (Inl err, w1) \<Rightarrow> ([], [GetMessages c], w1)
      | (Inr results, w1) \<Rightarrow>
          (map (toPendingMessage c) (filter needsConfirmations results), [GetMessages c], w1))"
  using assms by (simp add: rateLimitedApiCall_def split: prod.splits sum.splits)





text \<open>The shape of the events of one processed item.\<close>

lemma processTransaction_events:
  assumes "processTransaction X S e p w = (b, evs, w')"
  shows "\<exists>rest. evs = ProcessingStarted (pt_chainId p) (pt_safeTxHash p) # rest \<and>
           (\<forall>ev \<in> set rest. \<not> hasAlreadySigned S (pt_transaction p) \<and>
              (ev = SignTransactionHash (pt_chainId p) (pt_safeTxHash p) \<or>
               (\<exists>s. ev = ConfirmTransaction (pt_chainId p) (pt_safeTxHash p) s)))"
  using assms
  by (auto simp: processTransaction_def signTransaction_def Let_def
           split: if_splits prod.splits sum.splits)

lemma processMessage_events:
  assumes "processMessage X S q w = (b, evs, w')"
  shows "\<exists>rest. evs = ProcessingMessage (pm_chainId q) (pm_messageHash q) # rest \<and>
           (\<forall>ev \<in> set rest. \<not> hasAlreadySignedMessage S (pm_message q) \<and>
              (ev = SignMessageHash (pm_chainId q) (pm_messageHash q) \<or>
               (\<exists>s. ev = AddMessageSignature (pm_chainId q) (pm_messageHash q) s)))"
  using assms
  by (auto simp: processMessage_def Let_def split: if_splits prod.splits sum.splits)



lemma getPendingTransactions_loop_events:
  assumes "getPendingTransactions_loop X S cs w = (txs, evs, w')"
  shows "\<forall>ev \<in> set evs. \<exists>c. ev = GetPendingTransactions c"
  using assms
  by (induction cs arbitrary: w txs evs w')
     (auto split: if_splits prod.splits sum.splits)

lemma getPendingMessages_loop_events:
  assumes "getPendingMessages_loop X S cs w = (msgs, evs, w')"
  shows "\<forall>ev \<in> set evs. \<exists>c. ev = GetMessages c"
  using assms
  by (induction cs arbitrary: w msgs evs w')
     (auto split: if_splits prod.splits sum.splits)


lemma processMessages_loop_signs:
  assumes "processMessages_loop X S qs n w = (k, evs, w')"
  shows "\<forall>ev \<in> set evs.
           (\<exists>q \<in> set qs. ev = ProcessingMessage (pm_chainId q) (pm_messageHash q) \<or>
              (\<not> hasAlreadySignedMessage S (pm_message q) \<and>
               (ev = SignMessageHash (pm_chainId q) (pm_messageHash q) \<or>
                (\<exists>s. ev = AddMessageSignature (pm_chainId q) (pm_messageHash q) s))))"
  using assms
proof (induction qs arbitrary: n w k evs w')
  case Nil
  then show ?case by simp
next
  case (Cons q qs)
  obtain b e1 w1 where p: "processMessage X S q w = (b, e1, w1)"
    by (cases "processMessage X S q w") auto
  obtain k2 e2 w2 where r: "processMessages_loop X S qs (if b then n + 1 else n) w1 = (k2, e2, w2)"
    by (cases "processMessages_loop X S qs (if b then n + 1 else n) w1") auto
  from Cons.prems p r have evs: "evs = e1 @ e2" by simp
  from processMessage_events [OF p] obtain rest where
    e1: "e1 = ProcessingMessage (pm_chainId q) (pm_messageHash q) # rest"
    and rest: "\<forall>ev \<in> set rest. \<not> hasAlreadySignedMessage S (pm_message q) \<and>
              (ev = SignMessageHash (pm_chainId q) (pm_messageHash q) \<or>
               (\<exists>s. ev = AddMessageSignature (pm_chainId q) (pm_messageHash q) s))"
    by blast
  show ?case
  proof (intro ballI)
    fix ev assume ev: "ev \<in> set evs"
    then consider "ev = ProcessingMessage (pm_chainId q) (pm_messageHash q)"
      | "ev \<in> set rest" | "ev \<in> set e2"
      by (auto simp: evs e1)
    then show "\<exists>q \<in> set (q # qs). ev = ProcessingMessage (pm_chainId q) (pm_messageHash q) \<or>
              (\<not> hasAlreadySignedMessage S (pm_message q) \<and>
               (ev = SignMessageHash (pm_chainId q) (pm_messageHash q) \<or>
                (\<exists>s. ev = AddMessageSignature (pm_chainId q) (pm_messageHash q) s)))"
    proof cases
      case 1
      then show ?thesis by simp
    next
      case 2
      with rest show ?thesis by auto
    next
      case 3
      with Cons.IH [OF r] show ?thesis by auto
    qed
  qed
qed

lemma processTransactions_loop_no_message:
  assumes "processTransactions_loop X S e ps n w = (k, evs, w')"
  shows "\<forall>ev \<in> set evs. messageOf ev = None"
  using assms
proof (induction ps arbitrary: n w k evs w')
  case Nil
  then show ?case by simp
next
  case (Cons p ps)
  obtain b e1 w1 where p: "processTransaction X S e p w = (b, e1, w1)"
    by (cases "processTransaction X S e p w") auto
  obtain k2 e2 w2 where r: "processTransactions_loop X S e ps (if b then n + 1 else n) w1 = (k2, e2, w2)"
    by (cases "processTransactions_loop X S e ps (if b then n + 1 else n) w1") auto
  from Cons.prems p r have evs: "evs = e1 @ e2" by simp
  from processTransaction_events [OF p] obtain rest where
    e1: "e1 = ProcessingStarted (pt_chainId p) (pt_safeTxHash p) # rest"
    and rest: "\<forall>ev \<in> set rest. ev = SignTransactionHash (pt_chainId p) (pt_safeTxHash p) \<or>
               (\<exists>s. ev = ConfirmTransaction (pt_chainId p) (pt_safeTxHash p) s)"
    by blast
  have "messageOf ev = None" if "ev \<in> set rest" for ev
    using rest that by fastforce
  then have "\<forall>ev \<in> set e1. messageOf ev = None"
    by (simp add: e1)
  with Cons.IH [OF r] show ?case by (auto simp: evs)
qed

lemma getPendingMessages_loop_needs:
  assumes "getPendingMessages_loop X S cs w = (msgs, evs, w')"
  shows "\<forall>q \<in> set msgs. confirmationCount (pm_message q) < 2 \<and>
            pm_messageHash q = msg_messageHash (pm_message q)"
  using assms
  by (induction cs arbitrary: w msgs evs w')
     (auto simp: toPendingMessage_def needsConfirmations_def
           split: if_splits prod.splits sum.splits)

lemma scanAndProcess_unfold:
  assumes "getPendingTransactions X S w = (txs, ev1, w1)"
    and "processTransactions_loop X S e txs 0 w1 = (n, ev2, w2)"
    and "getPendingMessages X S w2 = (msgs, ev3, w3)"
    and "processMessages_loop X S msgs 0 w3 = (m, ev4, w4)"
  shows "scanAndProcess X S e w = ((n, m), ev1 @ ev2 @ ev3 @ ev4, w4)"
  using assms by (simp add: scanAndProcess_def)





lemma needsConfirmations_iff: "needsConfirmations m \<longleftrightarrow> confirmationCount m < 2"
  by (auto simp: needsConfirmations_def Let_def)

lemma needsConfirmations_eq: "needsConfirmations = (\<lambda>m. confirmationCount m < 2)"
  by (rule ext) (simp add: needsConfirmations_iff)

lemma scan_message_events:
  assumes "getPendingTransactions X S w = (txs, ev1, w1)"
    and "processTransactions_loop X S e txs 0 w1 = (n, ev2, w2)"
    and "getPendingMessages X S w2 = (msgs, ev3, w3)"
  shows "\<forall>ev \<in> set (fst (snd (scanAndProcess X S e w))). \<forall>c h.
           messageOf ev = Some (c, h) \<longrightarrow>
             (\<exists>q \<in> set msgs. pm_chainId q = c \<and> pm_messageHash q = h)"
proof -
  obtain m ev4 w4 where d: "processMessages_loop X S msgs 0 w3 = (m, ev4, w4)"
    by (cases "processMessages_loop X S msgs 0 w3") auto
  have s: "fst (snd (scanAndProcess X S e w)) = ev1 @ ev2 @ ev3 @ ev4"
    using scanAndProcess_unfold [OF assms d] by simp
  have n1: "\<forall>ev \<in> set ev1. messageOf ev = None"
    using getPendingTransactions_loop_events [of X S "enabledChains S" w txs ev1 w1] assms(1)
    by (auto simp: getPendingTransactions_def)
  have n2: "\<forall>ev \<in> set ev2. messageOf ev = None"
    by (rule processTransactions_loop_no_message [OF assms(2)])
  have n3: "\<forall>ev \<in> set ev3. messageOf ev = None"
    using getPendingMessages_loop_events [of X S "enabledChains S" w2 msgs ev3 w3] assms(3)
    by (auto simp: getPendingMessages_def)
  have n4: "\<forall>ev \<in> set ev4. \<forall>c h. messageOf ev = Some (c, h) \<longrightarrow>
             (\<exists>q \<in> set msgs. pm_chainId q = c \<and> pm_messageHash q = h)"
  proof (intro ballI allI impI)
    fix ev c h assume ev: "ev \<in> set ev4" "messageOf ev = Some (c, h)"
    from processMessages_loop_signs [OF d] ev(1) obtain q where q: "q \<in> set msgs"
      "ev = ProcessingMessage (pm_chainId q) (pm_messageHash q) \<or>
       (\<not> hasAlreadySignedMessage S (pm_message q) \<and>
          (ev = SignMessageHash (pm_chainId q) (pm_messageHash q) \<or>
           (\<exists>s. ev = AddMessageSignature (pm_chainId q) (pm_messageHash q) s)))"
      by blast
    from q(2) ev(2) have "pm_chainId q = c \<and> pm_messageHash q = h"
      by auto
    with q(1) show "\<exists>q \<in> set msgs. pm_chainId q = c \<and> pm_messageHash q = h"
      by blast
  qed
  show ?thesis
    unfolding s using n1 n2 n3 n4 by auto
qed






subsection \<open>C3: an item the operator has approved is skipped\<close>



subsection \<open>C5: the order of one scan cycle\<close>





subsection \<open>C6: an unsupported network identifier at construction\<close>

text \<open>
  C6: with \<open>ENABLED_CHAINS=1,999\<close> the unsupported identifier 999 is filtered out by
  \<open>getEnabledChains\<close> before \<open>validateEnabledChains\<close> looks for unsupported identifiers,
  so the validation passes and the constructor returns an object for network 1 alone. The
  identifier is refused only by \<open>getChainConfig\<close>.
\<close>

theorem unsupported_chain_id_is_dropped:
  "getEnabledChains env_1_999 = [Some 1]
   \<and> validateEnabledChains env_1_999 = Inr ()
   \<and> newSafeRemoteSigner env_1_999 (Some operatorAddress)
       = Inr \<lparr> signer = \<lparr> address = operatorAddress \<rparr>, isRunning = False,
               bot_enabledChains = [Some 1] \<rparr>
   \<and> getChainConfig (Some 999) = Inl (UnsupportedChainId (Some 999))"
  by code_simp


text \<open>The validation never reports an unsupported identifier, whatever the environment.\<close>

lemma getEnabledChains_supported: "\<forall>c \<in> set (getEnabledChains e). hasChainConfig c"
  by (auto simp: getEnabledChains_def hasChainConfig_def mainnet_id_def polygon_id_def
        CHAIN_CONFIGS_def member_set split: option.splits)

lemma validateEnabledChains_never_unsupported:
  "validateEnabledChains e \<noteq> Inl (UnsupportedChainIds cs)"
proof -
  have "filter (\<lambda>chainId. \<not> hasChainConfig chainId) (getEnabledChains e) = []"
    using getEnabledChains_supported [of e] by (simp add: filter_empty_conv)
  then show ?thesis
    by (simp add: validateEnabledChains_def Let_def)
qed

subsection \<open>C7: a failed fetch for one network\<close>



subsection \<open>C10: messages with two confirmations\<close>

text \<open>
  C10: of the messages the service returns for a network, \<open>getPendingMessages\<close> keeps those
  with fewer than two confirmations, in order, and no others; so every pending message has
  fewer than two confirmations, whatever threshold the vault has, and every entry of a scan
  cycle that processes, signs or submits a message belongs to such a pending message.
\<close>

theorem twice_confirmed_messages_are_excluded:
  "(List.member (safeApiKits S) c
      \<and> api_getMessages X c (safeAddress S) w = (Inr results, w')
     \<longrightarrow> getPendingMessages_loop X S [c] w =
           (map (toPendingMessage c) (filter (\<lambda>m. confirmationCount m < 2) results),
            [GetMessages c], w'))
   \<and> (\<forall>q \<in> set (fst (getPendingMessages X S w)). confirmationCount (pm_message q) < 2)
   \<and> (getPendingTransactions X S w = (txs, ev1, w1)
      \<and> processTransactions_loop X S e txs 0 w1 = (n, ev2, w2)
      \<and> getPendingMessages X S w2 = (msgs, ev3, w3)
     \<longrightarrow> (\<forall>ev \<in> set (fst (snd (scanAndProcess X S e w))). \<forall>c h.
            messageOf ev = Some (c, h) \<longrightarrow>
              (\<exists>q \<in> set msgs. pm_chainId q = c \<and> pm_messageHash q = h \<and>
                 confirmationCount (pm_message q) < 2)))"
proof -
  have one: "List.member (safeApiKits S) c
      \<and> api_getMessages X c (safeAddress S) w = (Inr results, w')
     \<longrightarrow> getPendingMessages_loop X S [c] w =
           (map (toPendingMessage c) (filter (\<lambda>m. confirmationCount m < 2) results),
            [GetMessages c], w')"
    using getPendingMessages_loop_single [of S c X w] by (auto simp: needsConfirmations_eq)
  have two: "\<forall>q \<in> set (fst (getPendingMessages X S w)). confirmationCount (pm_message q) < 2"
  proof -
    obtain ms evs wz where g: "getPendingMessages_loop X S (enabledChains S) w = (ms, evs, wz)"
      by (cases "getPendingMessages_loop X S (enabledChains S) w") auto
    from getPendingMessages_loop_needs [OF g] show ?thesis
      by (simp add: getPendingMessages_def g)
  qed
  have three: "\<forall>ev \<in> set (fst (snd (scanAndProcess X S e w))). \<forall>c h.
            messageOf ev = Some (c, h) \<longrightarrow>
              (\<exists>q \<in> set msgs. pm_chainId q = c \<and> pm_messageHash q = h \<and>
                 confirmationCount (pm_message q) < 2)"
    if a: "getPendingTransactions X S w = (txs, ev1, w1)"
      "processTransactions_loop X S e txs 0 w1 = (n, ev2, w2)"
      "getPendingMessages X S w2 = (msgs, ev3, w3)"
  proof -
    have "\<forall>q \<in> set msgs. confirmationCount (pm_message q) < 2"
      using getPendingMessages_loop_needs [of X S "enabledChains S" w2 msgs ev3 w3] a(3)
      by (simp add: getPendingMessages_def)
    with scan_message_events [OF a] show ?thesis
      by blast
  qed
  from one two three show ?thesis
    by blast
qed

theorem twice_confirmed_messages_are_excluded_witness:
  "getPendingMessages_loop demoExternals (demoService [1]) [1] 0
     = ([toPendingMessage 1 msg_first], [GetMessages 1], 1)
   \<and> confirmationCount msg_twice = 2
   \<and> toPendingMessage 1 msg_first \<in> set (fst (getPendingMessages demoExternals (demoService [1]) 0))
   \<and> confirmationCount (pm_message (toPendingMessage 1 msg_first)) < 2
   \<and> ProcessingMessage 1 ''0xff06''
       \<notin> set (fst (snd (scanAndProcess demoExternals (demoService [1]) noEnv 0)))
   \<and> SignMessageHash 1 ''0xff06''
       \<notin> set (fst (snd (scanAndProcess demoExternals (demoService [1]) noEnv 0)))"
proof -
  let ?S = "demoService [1]"
  have k: "List.member (safeApiKits ?S) 1"
    by code_simp
  have f: "api_getMessages demoExternals 1 (safeAddress ?S) 0 = (Inr [msg_first, msg_twice], 1)"
    by code_simp
  have c: "filter (\<lambda>m. confirmationCount m < 2) [msg_first, msg_twice] = [msg_first]"
    "confirmationCount msg_twice = 2"
    by (simp_all add: confirmationCount_def msg_first_def msg_twice_def)
  have a: "getPendingTransactions demoExternals ?S 0 =
             ([toPendingTransaction 1 rsp_first], [GetPendingTransactions 1], 1)"
    by code_simp
  have b: "processTransactions_loop demoExternals ?S noEnv [toPendingTransaction 1 rsp_first] 0 1 =
             (1, [ProcessingStarted 1 ''0xaa01'', SignTransactionHash 1 ''0xaa01'',
                  ConfirmTransaction 1 ''0xaa01'' ''sig:0xaa01''], 2)"
    by code_simp
  have d: "getPendingMessages demoExternals ?S 2 = ([toPendingMessage 1 msg_first], [GetMessages 1], 3)"
    by code_simp
  have h: "pm_messageHash (toPendingMessage 1 msg_first) \<noteq> ''0xff06''"
    by (simp add: toPendingMessage_def msg_first_def)
  have w1: "getPendingMessages_loop demoExternals ?S [1] 0
     = ([toPendingMessage 1 msg_first], [GetMessages 1], 1)"
    using twice_confirmed_messages_are_excluded
            [of ?S 1 demoExternals 0 "[msg_first, msg_twice]" 1] k f c(1)
    by simp
  have w3: "\<forall>ev \<in> set (fst (snd (scanAndProcess demoExternals ?S noEnv 0))). \<forall>c h.
            messageOf ev = Some (c, h) \<longrightarrow>
              (\<exists>q \<in> set [toPendingMessage 1 msg_first]. pm_chainId q = c \<and> pm_messageHash q = h \<and>
                 confirmationCount (pm_message q) < 2)"
    using twice_confirmed_messages_are_excluded
            [of ?S _ demoExternals 0 _ _ "[toPendingTransaction 1 rsp_first]"
                "[GetPendingTransactions 1]" 1 noEnv 1 _ 2 "[toPendingMessage 1 msg_first]"
                "[GetMessages 1]" 3]
      a b d
    by blast
  have g: "toPendingMessage 1 msg_first \<in> set (fst (getPendingMessages demoExternals ?S 0))"
    by code_simp
  have w2: "confirmationCount (pm_message (toPendingMessage 1 msg_first)) < 2"
    using twice_confirmed_messages_are_excluded [of ?S _ demoExternals 0] g
    by blast
  have m: "messageOf (ProcessingMessage 1 ''0xff06'') = Some (1, ''0xff06'')"
    "messageOf (SignMessageHash 1 ''0xff06'') = Some (1, ''0xff06'')"
    by simp_all
  from w3 h m have "ProcessingMessage 1 ''0xff06''
       \<notin> set (fst (snd (scanAndProcess demoExternals ?S noEnv 0)))"
    "SignMessageHash 1 ''0xff06''
       \<notin> set (fst (snd (scanAndProcess demoExternals ?S noEnv 0)))"
    by fastforce+
  with w1 c(2) g w2 show ?thesis
    by blast
qed

end
